theory Spec2Isabelle
  imports Complex_Main "HOL-Library.Sublist"
begin

section \<open>Python strings\<close>

text \<open>
  A Python string is a sequence of Unicode code points. String literals of the code are
  written \<open>lit ''...''\<close>. Dictionary keys, table names and the type and status of a log
  event are constants of the code and stay identifiers.
\<close>

type_synonym pystr = "nat list"

definition lit :: "string \<Rightarrow> pystr" where
  "lit s = map of_char s"

text \<open>
  What the Python runtime provides and the repository does not define: the case
  conversions \<^verbatim>\<open>str.upper\<close> and \<^verbatim>\<open>str.lower\<close> of Unicode strings (they may change the
  length of a string), the white space that \<^verbatim>\<open>str.strip\<close> removes, and the float
  arithmetic of the fee estimate, \<^verbatim>\<open>round(price * 0.10, 2)\<close>. They are parameters of
  everything below; every theorem holds for all of them.
\<close>

record runtime =
  str_upper :: "pystr \<Rightarrow> pystr"
  str_lower :: "pystr \<Rightarrow> pystr"
  str_isspace :: "nat \<Rightarrow> bool"
  fee_of :: "rat \<Rightarrow> rat"

text \<open>\<^verbatim>\<open>s.replace(" ", "")\<close>: every space is dropped.\<close>

definition remove_spaces :: "pystr \<Rightarrow> pystr" where
  "remove_spaces s = filter (\<lambda>c. c \<noteq> of_char (CHR '' '')) s"

text \<open>\<^verbatim>\<open>s.strip()\<close>: the white space at both ends is dropped.\<close>

definition py_strip :: "runtime \<Rightarrow> pystr \<Rightarrow> pystr" where
  "py_strip py s = rev (dropWhile (str_isspace py) (rev (dropWhile (str_isspace py) s)))"

text \<open>\<^verbatim>\<open>w in t\<close> on strings: \<open>w\<close> occurs in \<open>t\<close> as a contiguous run.\<close>

fun py_in :: "pystr \<Rightarrow> pystr \<Rightarrow> bool" where
  "py_in w [] = (w = [])"
| "py_in w (c # t) = (prefix w (c # t) \<or> py_in w t)"

text \<open>
  \<^verbatim>\<open>s.split(sep)\<close>, scanning left to right; \<open>cur\<close> is the piece collected so far.
  Python raises ValueError on an empty separator; the one call site passes a constant.
\<close>

function split_on :: "pystr \<Rightarrow> pystr \<Rightarrow> pystr \<Rightarrow> pystr list" where
  "split_on sep cur s =
     (if s = [] then [cur]
      else if sep \<noteq> [] \<and> prefix sep s then cur # split_on sep [] (drop (length sep) s)
      else split_on sep (cur @ [hd s]) (tl s))"
  by pat_completeness auto
termination
  by (relation "measure (\<lambda>(sep, cur, s). length s)") (auto simp: prefix_def)

declare split_on.simps [simp del]

definition py_split :: "pystr \<Rightarrow> pystr \<Rightarrow> pystr list" where
  "py_split s sep = split_on sep [] s"

text \<open>\<^verbatim>\<open>str(n)\<close> for an integer.\<close>

definition digit_char :: "int \<Rightarrow> nat" where
  "digit_char d = lit ''0123456789'' ! nat d"

function str_digits :: "int \<Rightarrow> pystr" where
  "str_digits n = (if n < 10 then [digit_char n] else str_digits (n div 10) @ [digit_char (n mod 10)])"
  by pat_completeness auto
termination
  by (relation "measure nat") auto

declare str_digits.simps [simp del]

definition str_int :: "int \<Rightarrow> pystr" where
  "str_int i = (if i < 0 then lit ''-'' @ str_digits (- i) else str_digits i)"

section \<open>Values and rows\<close>

text \<open>
  The store's rows and the log payloads are loosely typed field mappings: dictionaries from
  field names to values, kept in the order the code writes them.
\<close>

datatype jval =
    JNull
  | JBool bool
  | JInt int
  | JNum rat
  | JStr pystr
  | JList "jval list"
  | JObj "(string \<times> jval) list"

type_synonym row = "(string \<times> jval) list"

text \<open>
  An item of the marketplace library. \<open>price\<close> is the number \<^verbatim>\<open>float(vinted_item.price)\<close>
  yields, \<open>None\<close> when that conversion raises; \<open>created_at_ts\<close> is the text
  \<^verbatim>\<open>created_at_ts.isoformat()\<close> yields, \<open>None\<close> when the attribute is missing.
\<close>

record vinted_item =
  item_id :: int
  title :: pystr
  price :: "rat option"
  brand_title :: "pystr option"
  size_title :: "pystr option"
  created_at_ts :: "pystr option"
  url :: pystr
  photo :: "pystr option"

section \<open>integrations/vinted/normalizer.py\<close>

definition generate_sku :: "runtime \<Rightarrow> pystr \<Rightarrow> pystr option \<Rightarrow> pystr" where
  "generate_sku py vinted_item_id brand =
     (let prefix0 = lit ''VINT'';
          prefix1 = (case brand of
                       None \<Rightarrow> prefix0
                     | Some b \<Rightarrow>
                         if b = [] then prefix0
                         else (let brand_code = remove_spaces (str_upper py (take 3 b))
                               in lit ''VINT-'' @ brand_code))
      in prefix1 @ lit ''-'' @ vinted_item_id)"

definition str_or_null :: "pystr option \<Rightarrow> jval" where
  "str_or_null s = (case s of None \<Rightarrow> JNull | Some t \<Rightarrow> if t = [] then JNull else JStr t)"

definition normalize_item :: "runtime \<Rightarrow> vinted_item \<Rightarrow> int option \<Rightarrow> row option" where
  "normalize_item py vinted_item query_id =
     (let sku = generate_sku py (str_int (item_id vinted_item)) (brand_title vinted_item);
          condition = lit ''Good''
      in case price vinted_item of
           None \<Rightarrow> None
         | Some p \<Rightarrow>
             (let fees_estimate = fee_of py p
              in Some
                [(''sku'', JStr sku),
                 (''item_name'', JStr (title vinted_item)),
                 (''category'', JNull),
                 (''size'', str_or_null (size_title vinted_item)),
                 (''condition'', JStr condition),
                 (''brand'', (case str_or_null (brand_title vinted_item) of
                                JNull \<Rightarrow> JStr (lit ''Unknown'') | b \<Rightarrow> b)),
                 (''platforms'', JList [JStr (lit ''Vinted'')]),
                 (''listing_status'', JStr (lit ''Draft'')),
                 (''purchase_price'', JNull),
                 (''fees_estimate'', JNum fees_estimate),
                 (''shipping_paid_by'', JStr (lit ''Buyer'')),
                 (''shipping_cost'', JInt 0),
                 (''sale_price'', JNum p),
                 (''date_purchased'', JNull),
                 (''date_listed'', (case created_at_ts vinted_item of
                                      None \<Rightarrow> JNull | Some t \<Rightarrow> JStr t)),
                 (''date_sold'', JNull),
                 (''location'', JNull),
                 (''notes'', JStr (lit ''Imported from Vinted. Original URL: '' @ url vinted_item)),
                 (''photos'', (case str_or_null (photo vinted_item) of
                                 JNull \<Rightarrow> JList [] | ph \<Rightarrow> JList [ph])),
                 (''vinted_item_id'', JStr (str_int (item_id vinted_item))),
                 (''vinted_query_id'', (case query_id of None \<Rightarrow> JNull | Some q \<Rightarrow> JInt q))]))"

text \<open>
  The loop over the ban-words of \<^verbatim>\<open>can_import_item\<close>: \<open>Some\<close> is the early return,
  \<open>None\<close> the loop running to its end.
\<close>

fun check_banwords :: "runtime \<Rightarrow> pystr \<Rightarrow> pystr list \<Rightarrow> (bool \<times> pystr option) option" where
  "check_banwords py title_lower [] = None"
| "check_banwords py title_lower (word # rest) =
     (if py_in (str_lower py word) title_lower
      then Some (False, Some (lit ''Title contains banword: '' @ word))
      else check_banwords py title_lower rest)"

definition can_import_item ::
  "runtime \<Rightarrow> vinted_item \<Rightarrow> pystr list option \<Rightarrow> pystr list option \<Rightarrow> bool \<times> pystr option" where
  "can_import_item py vinted_item allowlist banwords =
     (case banwords of
        None \<Rightarrow> (True, None)
      | Some ws \<Rightarrow>
          if ws = [] then (True, None)
          else (let title_lower = str_lower py (title vinted_item)
                in case check_banwords py title_lower ws of
                     Some r \<Rightarrow> r
                   | None \<Rightarrow> (True, None)))"

text \<open>
  The ban-word list of \<^verbatim>\<open>sync_query\<close>:
  \<^verbatim>\<open>[w.strip().lower() for w in banwords_str.split('|||') if w.strip()]\<close>.
\<close>

definition parse_banwords :: "runtime \<Rightarrow> pystr \<Rightarrow> pystr list" where
  "parse_banwords py banwords_str =
     map (\<lambda>w. str_lower py (py_strip py w))
         (filter (\<lambda>w. py_strip py w \<noteq> []) (py_split banwords_str (lit ''|||'')))"

section \<open>What the specification's words mean\<close>



text \<open>
  The segments of a delimited value: joined with the delimiter they give the value back,
  and the delimiter occurs nowhere but at the joints, the leftmost occurrence taken first.
\<close>

fun join_with :: "pystr \<Rightarrow> pystr list \<Rightarrow> pystr" where
  "join_with sep [] = []"
| "join_with sep [s] = s"
| "join_with sep (s # t # rest) = s @ sep @ join_with sep (t # rest)"

definition splits_at :: "pystr \<Rightarrow> pystr list \<Rightarrow> pystr \<Rightarrow> bool" where
  "splits_at sep segs s =
     (segs \<noteq> [] \<and> join_with sep segs = s \<and>
      (\<forall>p \<in> set (butlast segs). \<not> sublist sep (p @ butlast sep)) \<and>
      \<not> sublist sep (last segs))"

section \<open>The world outside the process\<close>

text \<open>
  What the code reaches but does not own: the two environment values, the remote store
  with its three tables, the marketplace search and the clock. A remote call can fail:
  \<open>faults\<close> is the fate of the coming round trips to the store, in order, \<open>True\<close> for one
  that raises; once the list is used up every round trip succeeds. \<open>calls\<close> records each
  round trip to the store and each search of the marketplace, in the order they are made.
\<close>

datatype call = StoreCall string | SearchCall pystr int

datatype error =
    ConfigMissing
  | StoreError
  | SearchError pystr
  | KeyError string
  | AttributeError string

definition str_error :: "error \<Rightarrow> pystr" where
  "str_error e =
     (case e of
        ConfigMissing \<Rightarrow>
          lit ''SUPABASE_URL and SUPABASE_ANON_KEY environment variables required''
      | StoreError \<Rightarrow> lit ''store request failed''
      | SearchError msg \<Rightarrow> msg
      | KeyError k \<Rightarrow> lit ([CHR 0x27] @ k @ [CHR 0x27])
      | AttributeError a \<Rightarrow> lit (''object has no attribute '' @ [CHR 0x27] @ a @ [CHR 0x27]))"

record log_event =
  event_type :: string
  status :: string
  event_message :: pystr
  data :: jval

record world =
  env_url :: "pystr option"
  env_key :: "pystr option"
  supabase_client :: bool
  settings_tbl :: "string \<rightharpoonup> pystr"
  items_tbl :: "row list"
  logs_tbl :: "log_event list"
  faults :: "bool list"
  market :: "pystr \<Rightarrow> int \<Rightarrow> pystr + vinted_item list"
  clock :: int
  calls :: "call list"

section \<open>Computations that change a state and may raise\<close>

type_synonym ('s, 'a) io = "'s \<Rightarrow> (error + 'a) \<times> 's"

definition ret :: "'a \<Rightarrow> ('s, 'a) io" where
  "ret x = (\<lambda>s. (Inr x, s))"

definition raise :: "error \<Rightarrow> ('s, 'a) io" where
  "raise e = (\<lambda>s. (Inl e, s))"

definition bind :: "('s, 'a) io \<Rightarrow> ('a \<Rightarrow> ('s, 'b) io) \<Rightarrow> ('s, 'b) io" where
  "bind m f = (\<lambda>s. case m s of (Inl e, s') \<Rightarrow> (Inl e, s') | (Inr x, s') \<Rightarrow> f x s')"

text \<open>\<^verbatim>\<open>try: m  except Exception as e: h e\<close>; the state reached when \<open>m\<close> raised is kept.\<close>

definition try_except :: "('s, 'a) io \<Rightarrow> (error \<Rightarrow> ('s, 'a) io) \<Rightarrow> ('s, 'a) io" where
  "try_except m h = (\<lambda>s. case m s of (Inl e, s') \<Rightarrow> h e s' | (Inr x, s') \<Rightarrow> (Inr x, s'))"

text \<open>A method's local variables beside the world: the second component of the state.\<close>

definition on_world :: "(world, 'a) io \<Rightarrow> (world \<times> 'l, 'a) io" where
  "on_world m = (\<lambda>(w, l). case m w of (r, w') \<Rightarrow> (r, (w', l)))"

definition get_local :: "(world \<times> 'l, 'l) io" where
  "get_local = (\<lambda>(w, l). (Inr l, (w, l)))"

definition modify_local :: "('l \<Rightarrow> 'l) \<Rightarrow> (world \<times> 'l, unit) io" where
  "modify_local f = (\<lambda>(w, l). (Inr (), (w, f l)))"

definition with_local :: "'l \<Rightarrow> (world \<times> 'l, 'a) io \<Rightarrow> (world, 'a) io" where
  "with_local l m = (\<lambda>w. case m (w, l) of (r, (w', l')) \<Rightarrow> (r, w'))"

section \<open>database.py\<close>

text \<open>\<^verbatim>\<open>not url\<close>: the variable is unset or empty.\<close>

definition absent :: "pystr option \<Rightarrow> bool" where
  "absent v = (case v of None \<Rightarrow> True | Some s \<Rightarrow> s = [])"

definition get_supabase :: "(world, unit) io" where
  "get_supabase =
     (\<lambda>w. if supabase_client w then (Inr (), w)
          else if absent (env_url w) \<or> absent (env_key w) then (Inl ConfigMissing, w)
          else (Inr (), w\<lparr>supabase_client := True\<rparr>))"

text \<open>
  \<^verbatim>\<open>.execute()\<close>: one round trip to the store about a table. It is recorded, and it raises
  when the next fault says so.
\<close>

definition execute :: "string \<Rightarrow> (world, unit) io" where
  "execute table =
     (\<lambda>w. let w1 = w\<lparr>calls := calls w @ [StoreCall table]\<rparr>
          in case faults w of
               [] \<Rightarrow> (Inr (), w1)
             | f # fs \<Rightarrow> (if f then Inl StoreError else Inr (), w1\<lparr>faults := fs\<rparr>))"

text \<open>
  \<^verbatim>\<open>.maybeSingle()\<close>: the query builder of the Python client has no attribute of this
  name (its method is \<^verbatim>\<open>maybe_single\<close>), so looking it up raises AttributeError, before
  \<^verbatim>\<open>.execute()\<close> is reached. The two operations that call it catch the error in their
  own \<^verbatim>\<open>try\<close>; what follows the call in them is never run, and is kept as the round trip
  and the return of its data.
\<close>

definition maybeSingle :: "('s, 'a) io" where
  "maybeSingle = raise (AttributeError ''maybeSingle'')"

definition get_setting :: "string \<Rightarrow> (world, pystr option) io" where
  "get_setting key =
     try_except
       (bind get_supabase (\<lambda>_.
        bind maybeSingle (\<lambda>result_data.
        bind (execute ''settings'') (\<lambda>_.
        ret result_data))))
       (\<lambda>e. ret None)"

text \<open>
  The settings table is kept as a map from key to value; the columns \<^verbatim>\<open>updated_at\<close> and
  \<^verbatim>\<open>description\<close> that \<^verbatim>\<open>set_setting\<close> also writes are read by no operation here and
  are left out.
\<close>

definition set_setting :: "string \<Rightarrow> pystr \<Rightarrow> pystr option \<Rightarrow> (world, bool) io" where
  "set_setting key val description =
     try_except
       (bind get_supabase (\<lambda>_.
        bind (execute ''settings'') (\<lambda>_.
        bind (\<lambda>w. (Inr (), w\<lparr>settings_tbl := (settings_tbl w)(key \<mapsto> val)\<rparr>)) (\<lambda>_.
        ret True))))
       (\<lambda>e. ret False)"

definition get_item_by_vinted_id :: "pystr \<Rightarrow> (world, row option) io" where
  "get_item_by_vinted_id vinted_item_id =
     try_except
       (bind get_supabase (\<lambda>_.
        bind maybeSingle (\<lambda>result_data.
        bind (execute ''items'') (\<lambda>_.
        ret result_data))))
       (\<lambda>e. ret None)"

definition create_item :: "row \<Rightarrow> (world, row option) io" where
  "create_item item_data =
     try_except
       (bind get_supabase (\<lambda>_.
        bind (execute ''items'') (\<lambda>_.
        bind (\<lambda>w. (Inr [item_data], w\<lparr>items_tbl := items_tbl w @ [item_data]\<rparr>)) (\<lambda>result_data.
        ret (case result_data of [] \<Rightarrow> None | r # _ \<Rightarrow> Some r)))))
       (\<lambda>e. ret None)"

definition log_vinted_event :: "string \<Rightarrow> string \<Rightarrow> pystr \<Rightarrow> jval \<Rightarrow> (world, bool) io" where
  "log_vinted_event ev_type ev_status ev_message ev_data =
     try_except
       (bind get_supabase (\<lambda>_.
        (let log_data = \<lparr>event_type = ev_type, status = ev_status,
                          event_message = ev_message, data = ev_data\<rparr>
         in bind (execute ''vinted_integration_logs'') (\<lambda>_.
            bind (\<lambda>w. (Inr (), w\<lparr>logs_tbl := logs_tbl w @ [log_data]\<rparr>)) (\<lambda>_.
            ret True)))))
       (\<lambda>e. ret False)"

section \<open>integrations/vinted/adapter.py\<close>

record adapter =
  enabled :: bool

text \<open>
  The dictionary \<^verbatim>\<open>sync_query\<close> returns. The keys \<^verbatim>\<open>items\<close> and \<^verbatim>\<open>message\<close> are not in
  every result: \<open>None\<close> is the key missing.
\<close>

record sync_result =
  success :: bool
  imported :: int
  skipped :: int
  errors :: int
  items :: "row list option"
  message :: "pystr option"

definition result_json :: "sync_result \<Rightarrow> jval" where
  "result_json r =
     JObj ([(''success'', JBool (success r)),
            (''imported'', JInt (imported r)),
            (''skipped'', JInt (skipped r)),
            (''errors'', JInt (errors r))]
           @ (case items r of None \<Rightarrow> [] | Some its \<Rightarrow> [(''items'', JList (map JObj its))])
           @ (case message r of None \<Rightarrow> [] | Some m \<Rightarrow> [(''message'', JStr m)]))"

text \<open>\<^verbatim>\<open>self.vinted_client.items.search(query_url, nbr_items=items_limit)\<close>: one network call.\<close>

definition items_search :: "pystr \<Rightarrow> int \<Rightarrow> (world, vinted_item list) io" where
  "items_search query_url nbr_items =
     (\<lambda>w. let w1 = w\<lparr>calls := calls w @ [SearchCall query_url nbr_items]\<rparr>
          in case market w query_url nbr_items of
               Inl msg \<Rightarrow> (Inl (SearchError msg), w1)
             | Inr vinted_items \<Rightarrow> (Inr vinted_items, w1))"

text \<open>\<^verbatim>\<open>datetime.now().timestamp()\<close>, as whole seconds.\<close>

definition now_timestamp :: "(world, int) io" where
  "now_timestamp = (\<lambda>w. (Inr (clock w), w))"

text \<open>\<^verbatim>\<open>d[k]\<close> raises KeyError on a missing key; \<^verbatim>\<open>if d:\<close> holds for a dictionary with a key.\<close>

definition getitem :: "row \<Rightarrow> string \<Rightarrow> ('s, jval) io" where
  "getitem d k = (case map_of d k of None \<Rightarrow> raise (KeyError k) | Some v \<Rightarrow> ret v)"

definition truthy :: "row option \<Rightarrow> bool" where
  "truthy d = (case d of None \<Rightarrow> False | Some r \<Rightarrow> r \<noteq> [])"

definition check_enabled :: "(world, bool) io" where
  "check_enabled =
     try_except
       (bind (get_setting ''vinted_integration_enabled'') (\<lambda>en. ret (en = Some (lit ''true''))))
       (\<lambda>e. ret False)"

definition init_adapter :: "(world, adapter) io" where
  "init_adapter = bind check_enabled (\<lambda>en. ret \<lparr>enabled = en\<rparr>)"

definition is_enabled :: "adapter \<Rightarrow> bool" where
  "is_enabled self = enabled self"

text \<open>The body of the loop of \<^verbatim>\<open>sync_query\<close>, with its own \<^verbatim>\<open>try\<close>.\<close>

definition process_item ::
  "runtime \<Rightarrow> pystr list \<Rightarrow> int \<Rightarrow> vinted_item \<Rightarrow> (world \<times> sync_result, unit) io" where
  "process_item py banwords query_id vinted_item =
     try_except
       (case can_import_item py vinted_item None (Some banwords) of
          (False, reason) \<Rightarrow> modify_local (\<lambda>r. r\<lparr>skipped := skipped r + 1\<rparr>)
        | (True, reason) \<Rightarrow>
            bind (on_world (get_item_by_vinted_id (str_int (item_id vinted_item)))) (\<lambda>existing.
            if truthy existing then modify_local (\<lambda>r. r\<lparr>skipped := skipped r + 1\<rparr>)
            else (let normalized_item = normalize_item py vinted_item (Some query_id)
                  in if \<not> truthy normalized_item
                     then modify_local (\<lambda>r. r\<lparr>errors := errors r + 1\<rparr>)
                     else
                       bind (on_world (create_item (the normalized_item))) (\<lambda>created_item.
                       if truthy created_item then
                         bind (modify_local (\<lambda>r. r\<lparr>imported := imported r + 1\<rparr>)) (\<lambda>_.
                         bind (modify_local (\<lambda>r. r\<lparr>items :=
                                 map_option (\<lambda>its. its @ [the created_item]) (items r)\<rparr>)) (\<lambda>_.
                         bind (getitem (the created_item) ''sku'') (\<lambda>sku.
                         bind (on_world (log_vinted_event ''item_imported'' ''Success''
                                 (lit ''Imported item '' @ title vinted_item)
                                 (JObj [(''vinted_id'', JStr (str_int (item_id vinted_item))),
                                        (''sku'', sku)]))) (\<lambda>_.
                         ret ()))))
                       else modify_local (\<lambda>r. r\<lparr>errors := errors r + 1\<rparr>)))))
       (\<lambda>e. modify_local (\<lambda>r. r\<lparr>errors := errors r + 1\<rparr>))"

fun sync_items ::
  "runtime \<Rightarrow> pystr list \<Rightarrow> int \<Rightarrow> vinted_item list \<Rightarrow> (world \<times> sync_result, unit) io" where
  "sync_items py banwords query_id [] = ret ()"
| "sync_items py banwords query_id (vinted_item # rest) =
     bind (process_item py banwords query_id vinted_item)
          (\<lambda>_. sync_items py banwords query_id rest)"

definition disabled_result :: sync_result where
  "disabled_result =
     \<lparr>success = False, imported = 0, skipped = 0, errors = 0, items = None,
      message = Some (lit ''Integration disabled'')\<rparr>"

definition initial_result :: sync_result where
  "initial_result =
     \<lparr>success = True, imported = 0, skipped = 0, errors = 0, items = Some [], message = None\<rparr>"

definition summary_message :: "int \<Rightarrow> sync_result \<Rightarrow> pystr" where
  "summary_message query_id r =
     lit ''Synced query '' @ str_int query_id @ lit '': '' @ str_int (imported r)
       @ lit '' imported, '' @ str_int (skipped r) @ lit '' skipped, ''
       @ str_int (errors r) @ lit '' errors''"

definition sync_query ::
  "runtime \<Rightarrow> adapter \<Rightarrow> pystr \<Rightarrow> int \<Rightarrow> int \<Rightarrow> (world, sync_result) io" where
  "sync_query py self query_url query_id items_limit =
     (if \<not> enabled self then ret disabled_result
      else
        with_local initial_result
          (bind
             (try_except
                (bind (on_world (items_search query_url items_limit)) (\<lambda>vinted_items.
                 bind (on_world (get_setting ''banwords'')) (\<lambda>setting.
                 (let banwords_str = (case setting of None \<Rightarrow> [] | Some v \<Rightarrow> v);
                      banwords = parse_banwords py banwords_str
                  in bind (sync_items py banwords query_id vinted_items) (\<lambda>_.
                     bind (on_world now_timestamp) (\<lambda>t.
                     bind (on_world (set_setting ''vinted_last_sync'' (str_int t) None)) (\<lambda>_.
                     bind get_local (\<lambda>r.
                     bind (on_world (log_vinted_event ''query_sync'' ''Success''
                             (summary_message query_id r)
                             (JObj [(''query_id'', JInt query_id),
                                    (''results'', result_json r)]))) (\<lambda>_.
                     ret ())))))))))
                (\<lambda>e.
                   bind (modify_local (\<lambda>r. r\<lparr>success := False\<rparr>)) (\<lambda>_.
                   bind (modify_local (\<lambda>r. r\<lparr>message := Some (str_error e)\<rparr>)) (\<lambda>_.
                   bind (on_world (log_vinted_event ''query_sync'' ''Error''
                           (lit ''Failed to sync query '' @ str_int query_id @ lit '': ''
                              @ str_error e)
                           (JObj [(''query_id'', JInt query_id),
                                  (''error'', JStr (str_error e))]))) (\<lambda>_.
                   ret ())))))
             (\<lambda>_. get_local)))"

definition enable_integration :: "(world \<times> adapter, bool) io" where
  "enable_integration =
     try_except
       (bind (on_world (set_setting ''vinted_integration_enabled'' (lit ''true'') None)) (\<lambda>_.
        bind (modify_local (\<lambda>self. self\<lparr>enabled := True\<rparr>)) (\<lambda>_.
        bind (on_world (log_vinted_event ''integration_enabled'' ''Success''
                (lit ''Vinted integration enabled'') JNull)) (\<lambda>_.
        ret True))))
       (\<lambda>e. ret False)"

definition disable_integration :: "(world \<times> adapter, bool) io" where
  "disable_integration =
     try_except
       (bind (on_world (set_setting ''vinted_integration_enabled'' (lit ''false'') None)) (\<lambda>_.
        bind (modify_local (\<lambda>self. self\<lparr>enabled := False\<rparr>)) (\<lambda>_.
        bind (on_world (log_vinted_event ''integration_disabled'' ''Success''
                (lit ''Vinted integration disabled'') JNull)) (\<lambda>_.
        ret True))))
       (\<lambda>e. ret False)"

section \<open>Conditions on the world\<close>

text \<open>
  The store is configured when a client exists already or both environment values are
  there. The next round trip is answered when the store is configured and the coming fault
  is not one that raises. The store is reliable when it is configured and no fault is left.
\<close>

definition configured :: "world \<Rightarrow> bool" where
  "configured w = (supabase_client w \<or> \<not> (absent (env_url w) \<or> absent (env_key w)))"

definition next_ok :: "world \<Rightarrow> bool" where
  "next_ok w = (configured w \<and> (case faults w of [] \<Rightarrow> True | f # _ \<Rightarrow> \<not> f))"

definition reliable :: "world \<Rightarrow> bool" where
  "reliable w = (configured w \<and> faults w = [])"

text \<open>The world after a round trip about a table: the trip is recorded, its fault used up.\<close>

definition after_call :: "string \<Rightarrow> world \<Rightarrow> world" where
  "after_call table w =
     w\<lparr>supabase_client := True, faults := tl (faults w), calls := calls w @ [StoreCall table]\<rparr>"

text \<open>
  A result is balanced at \<open>n\<close> when its three counters add up to \<open>n\<close> and its item list
  is as long as its count of imports.
\<close>

definition balanced :: "int \<Rightarrow> sync_result \<Rightarrow> bool" where
  "balanced n r =
     (imported r + skipped r + errors r = n \<and>
      (case items r of None \<Rightarrow> False | Some l \<Rightarrow> int (length l) = imported r))"

section \<open>Worlds to run the code in\<close>

text \<open>
  A runtime to run the examples with. It converts the case of the twenty-six ASCII letters
  and leaves every other character, takes the ASCII white space for white space, and
  estimates the fee as the exact tenth of the price. The texts of the examples are ASCII
  and their prices are whole numbers.
\<close>

definition ascii_upper :: "nat \<Rightarrow> nat" where
  "ascii_upper c = (if 97 \<le> c \<and> c \<le> 122 then c - 32 else c)"

definition ascii_lower :: "nat \<Rightarrow> nat" where
  "ascii_lower c = (if 65 \<le> c \<and> c \<le> 90 then c + 32 else c)"

definition ascii_runtime :: runtime where
  "ascii_runtime =
     \<lparr>str_upper = map ascii_upper, str_lower = map ascii_lower,
      str_isspace = (\<lambda>c. (9 \<le> c \<and> c \<le> 13) \<or> (28 \<le> c \<and> c \<le> 32)),
      fee_of = (\<lambda>p. p / 10)\<rparr>"

definition fake_shoes :: vinted_item where
  "fake_shoes =
     \<lparr>item_id = 1, title = lit ''Fake Nike Shoes'', price = Some 20, brand_title = None,
      size_title = None, created_at_ts = None, url = lit ''https://v/1'', photo = None\<rparr>"

definition nike_shoes :: vinted_item where
  "nike_shoes =
     \<lparr>item_id = 2, title = lit ''Nike Shoes'', price = Some 20, brand_title = None,
      size_title = None, created_at_ts = None, url = lit ''https://v/2'', photo = None\<rparr>"

text \<open>
  A configured store with the ban-word \<open>fake\<close> and an empty inventory; the marketplace
  answers every search with the two items.
\<close>

definition shop_world :: world where
  "shop_world =
     \<lparr>env_url = Some (lit ''https://store''), env_key = Some (lit ''key''),
      supabase_client = False,
      settings_tbl = [''banwords'' \<mapsto> lit ''fake''], items_tbl = [], logs_tbl = [],
      faults = [], market = (\<lambda>query_url nbr_items. Inr [fake_shoes, nike_shoes]),
      clock = 1700000000, calls = []\<rparr>"

text \<open>The same world with the store's address missing from the environment.\<close>

definition unconfigured_world :: world where
  "unconfigured_world = shop_world\<lparr>env_url := None\<rparr>"

text \<open>The same world with the marketplace out of reach.\<close>

definition no_market_world :: world where
  "no_market_world = shop_world\<lparr>market := (\<lambda>query_url nbr_items. Inl (lit ''timeout''))\<rparr>"

text \<open>The world with the store and the marketplace both out of reach.\<close>

definition dark_world :: world where
  "dark_world = no_market_world\<lparr>faults := [True]\<rparr>"

text \<open>The adapter switched on, and the search of the examples.\<close>

definition switched_on :: adapter where
  "switched_on = \<lparr>enabled = True\<rparr>"

definition shoe_search :: pystr where
  "shoe_search = lit ''https://v/search''"

section \<open>The normalizer\<close>

text \<open>
  C3, as the code has it. With no brand, or with the empty brand, the SKU is \<open>VINT-\<close>
  followed by the external id. With any other brand \<open>b\<close> it is \<open>VINT-\<close>, then the upper
  case of the first three characters of \<open>b\<close> (letters or not) with the spaces dropped from
  it, then \<open>-\<close>, then the external id.
\<close>

theorem generate_sku_format:
  "generate_sku py i None = lit ''VINT-'' @ i \<and>
   generate_sku py i (Some []) = lit ''VINT-'' @ i \<and>
   (b \<noteq> [] \<longrightarrow>
      generate_sku py i (Some b) =
        lit ''VINT-'' @ [c \<leftarrow> str_upper py (take 3 b). c \<noteq> of_char (CHR '' '')] @ lit ''-'' @ i)"
  by (simp add: generate_sku_def remove_spaces_def lit_def)

theorem generate_sku_format_witness:
  "lit ''Nike'' \<noteq> [] \<and>
   generate_sku ascii_runtime (lit ''42'') (Some (lit ''Nike'')) = lit ''VINT-NIK-42''"
  using generate_sku_format [of ascii_runtime "lit ''42''" "lit ''Nike''"]
  by (simp add: lit_def ascii_runtime_def ascii_upper_def)

text \<open>
  The empty brand is a brand string, and there the SKU has one hyphen, not the two that the
  statement of C3 gives it.
\<close>

theorem generate_sku_empty_brand_counterexample:
  "generate_sku ascii_runtime (lit ''1'') (Some (lit '''')) = lit ''VINT-1'' \<and>
   lit ''VINT-1'' \<noteq> lit ''VINT--1''"
  by (simp add: generate_sku_def lit_def)

lemma py_in_sublist: "py_in w t = sublist w t"
  by (induction t) (auto simp: sublist_Cons_right)




section \<open>The ban-word setting\<close>

lemma split_on_no_sep: "\<not> sublist sep s \<Longrightarrow> split_on sep cur s = [cur @ s]"
proof (induction s arbitrary: cur)
  case Nil
  then show ?case by (simp add: split_on.simps)
next
  case (Cons c s)
  have np: "\<not> prefix sep (c # s)" and ns: "\<not> sublist sep s"
    using Cons.prems by (auto simp: sublist_Cons_right)
  have "split_on sep cur (c # s) = split_on sep (cur @ [c]) s"
    using np by (subst split_on.simps) simp
  then show ?case using Cons.IH [OF ns] by simp
qed

lemma prefix_shorter: "prefix xs (ys @ zs) \<Longrightarrow> length xs \<le> length ys \<Longrightarrow> prefix xs ys"
  by (auto simp: prefix_append dest: prefix_length_le)

lemma joint_regroup:
  assumes "sep \<noteq> []"
  shows "(xs @ butlast sep) @ ([last sep] @ r) = xs @ sep @ r"
proof -
  have e: "butlast sep @ [last sep] = sep" using assms by simp
  have "(xs @ butlast sep) @ ([last sep] @ r) = xs @ (butlast sep @ [last sep]) @ r"
    by simp
  also have "\<dots> = xs @ sep @ r" by (simp only: e)
  finally show ?thesis .
qed

lemma not_prefix_before_joint:
  assumes "sep \<noteq> []" and "\<not> sublist sep ((c # p) @ butlast sep)"
  shows "\<not> prefix sep ((c # p) @ sep @ r)"
proof
  assume pre: "prefix sep ((c # p) @ sep @ r)"
  have "prefix sep (((c # p) @ butlast sep) @ ([last sep] @ r))"
    unfolding joint_regroup [OF assms(1)] by (rule pre)
  moreover have "length sep \<le> length ((c # p) @ butlast sep)"
    using assms(1) by simp
  ultimately have "prefix sep ((c # p) @ butlast sep)"
    by (rule prefix_shorter)
  then have "sublist sep ((c # p) @ butlast sep)"
    by (rule prefix_imp_sublist)
  then show False using assms(2) by simp
qed

lemma split_on_piece:
  "sep \<noteq> [] \<Longrightarrow> \<not> sublist sep (p @ butlast sep) \<Longrightarrow>
     split_on sep cur (p @ sep @ r) = (cur @ p) # split_on sep [] r"
proof (induction p arbitrary: cur)
  case Nil
  then show ?case by (subst split_on.simps) simp
next
  case (Cons c p)
  have np: "\<not> prefix sep ((c # p) @ sep @ r)"
    using Cons.prems by (rule not_prefix_before_joint)
  have ns: "\<not> sublist sep (p @ butlast sep)"
    using Cons.prems(2) by (auto simp: sublist_Cons_right)
  have "split_on sep cur ((c # p) @ sep @ r) = split_on sep (cur @ [c]) (p @ sep @ r)"
    using np by (subst split_on.simps) simp
  then show ?case using Cons.IH [OF Cons.prems(1) ns] by simp
qed

lemma splits_at_split_on:
  "sep \<noteq> [] \<Longrightarrow> splits_at sep segs s \<Longrightarrow> split_on sep [] s = segs"
proof (induction sep segs arbitrary: s rule: join_with.induct)
  case (1 sep)
  then show ?case by (simp add: splits_at_def)
next
  case (2 sep p)
  then show ?case by (auto simp: splits_at_def split_on_no_sep)
next
  case (3 sep p q rest)
  have s: "s = p @ sep @ join_with sep (q # rest)"
    and np: "\<not> sublist sep (p @ butlast sep)"
    and rest: "splits_at sep (q # rest) (join_with sep (q # rest))"
    using "3.prems"(2) by (auto simp: splits_at_def)
  have "split_on sep [] (join_with sep (q # rest)) = q # rest"
    using "3.IH" [OF "3.prems"(1) rest] .
  then show ?case using split_on_piece [OF "3.prems"(1) np, of "[]" "join_with sep (q # rest)"] s
    by simp
qed

lemma split_on_splits_at:
  "sep \<noteq> [] \<Longrightarrow> \<exists>p rest. split_on sep cur s = (cur @ p) # rest \<and> splits_at sep (p # rest) s"
proof (induction sep cur s rule: split_on.induct)
  case (1 sep cur s)
  show ?case
  proof (cases "s = []")
    case True
    have "split_on sep cur s = (cur @ []) # []" using True by (simp add: split_on.simps)
    moreover have "splits_at sep ([] # []) s" using True "1.prems" by (simp add: splits_at_def)
    ultimately show ?thesis by blast
  next
    case ne: False
    show ?thesis
    proof (cases "prefix sep s")
      case True
      obtain p rest where ih: "split_on sep [] (drop (length sep) s) = ([] @ p) # rest"
          "splits_at sep (p # rest) (drop (length sep) s)"
        using "1.IH"(1) [OF ne _ "1.prems"] True "1.prems" by blast
      have s: "s = sep @ drop (length sep) s" using True by (auto simp: prefix_def)
      have "split_on sep cur s = (cur @ []) # p # rest"
        using ne True "1.prems" ih(1) by (subst split_on.simps) simp
      moreover have "splits_at sep ([] # p # rest) s"
      proof -
        have "join_with sep ([] # p # rest) = s"
          using ih(2) s by (simp add: splits_at_def)
        moreover have "\<not> sublist sep ([] @ butlast sep)"
        proof
          assume "sublist sep ([] @ butlast sep)"
          then have "length sep \<le> length (butlast sep)" using sublist_length_le by fastforce
          then show False using "1.prems" by (cases sep rule: rev_cases) auto
        qed
        ultimately show ?thesis using ih(2) by (auto simp: splits_at_def)
      qed
      ultimately show ?thesis by blast
    next
      case np: False
      obtain c s' where cs: "s = c # s'" using ne by (cases s) auto
      obtain p rest where ih: "split_on sep (cur @ [hd s]) (tl s) = ((cur @ [hd s]) @ p) # rest"
          "splits_at sep (p # rest) (tl s)"
        using "1.IH"(2) [OF ne _ "1.prems"] np by blast
      have "split_on sep cur s = (cur @ (c # p)) # rest"
        using ne np ih(1) cs by (subst split_on.simps) simp
      moreover have "splits_at sep ((c # p) # rest) s"
      proof (cases rest)
        case Nil
        then have p: "p = s'" and nsub: "\<not> sublist sep s'"
          using ih(2) cs by (auto simp: splits_at_def)
        have "\<not> sublist sep (c # s')"
          using np nsub cs by (auto simp: sublist_Cons_right)
        then show ?thesis using Nil p cs by (simp add: splits_at_def)
      next
        case (Cons q rest')
        have j: "s' = p @ sep @ join_with sep (q # rest')"
          and nsub: "\<not> sublist sep (p @ butlast sep)"
          using ih(2) cs Cons by (auto simp: splits_at_def)
        have "\<not> prefix sep ((c # p) @ butlast sep)"
        proof
          assume "prefix sep ((c # p) @ butlast sep)"
          then have "prefix sep (((c # p) @ butlast sep) @ ([last sep] @ join_with sep (q # rest')))"
            using prefix_prefix by blast
          then have "prefix sep ((c # p) @ sep @ join_with sep (q # rest'))"
            unfolding joint_regroup [OF "1.prems"] .
          moreover have "(c # p) @ sep @ join_with sep (q # rest') = s"
            using cs j by simp
          ultimately show False using np by simp
        qed
        then have "\<not> sublist sep ((c # p) @ butlast sep)"
          using nsub by (auto simp: sublist_Cons_right)
        then show ?thesis using ih(2) cs Cons j by (auto simp: splits_at_def)
      qed
      ultimately show ?thesis by blast
    qed
  qed
qed

lemma py_split_splits_at: "sep \<noteq> [] \<Longrightarrow> splits_at sep (py_split s sep) s"
  using split_on_splits_at [of sep "[]" s] by (auto simp: py_split_def)

lemma map_filter_comprehension:
  "map f (filter P xs) = [f x. x \<leftarrow> xs, P x]"
  by (induction xs) simp_all

section \<open>The store layer\<close>

lemma client_True: "supabase_client w \<Longrightarrow> w\<lparr>supabase_client := True\<rparr> = w"
  by (cases w) simp

lemma get_supabase_eq:
  "get_supabase w =
     (if configured w then (Inr (), w\<lparr>supabase_client := True\<rparr>) else (Inl ConfigMissing, w))"
  by (auto simp: get_supabase_def configured_def client_True)

lemma execute_eq:
  "execute t w =
     ((case faults w of [] \<Rightarrow> Inr () | f # _ \<Rightarrow> if f then Inl StoreError else Inr ()),
      w\<lparr>faults := tl (faults w), calls := calls w @ [StoreCall t]\<rparr>)"
  by (cases w) (auto simp: execute_def Let_def split: list.splits)

lemma get_setting_eq:
  "get_setting key w =
     (Inr None, if configured w then w\<lparr>supabase_client := True\<rparr> else w)"
  by (simp add: get_setting_def try_except_def bind_def ret_def raise_def maybeSingle_def
        get_supabase_eq)

lemma get_item_by_vinted_id_eq:
  "get_item_by_vinted_id v w =
     (Inr None, if configured w then w\<lparr>supabase_client := True\<rparr> else w)"
  by (simp add: get_item_by_vinted_id_def try_except_def bind_def ret_def raise_def
        maybeSingle_def get_supabase_eq)

lemma set_setting_eq:
  "set_setting key val d w =
     (if \<not> configured w then (Inr False, w)
      else if next_ok w
      then (Inr True, (after_call ''settings'' w)\<lparr>settings_tbl := (settings_tbl w)(key \<mapsto> val)\<rparr>)
      else (Inr False, after_call ''settings'' w))"
  by (auto simp: set_setting_def try_except_def bind_def ret_def get_supabase_eq execute_eq
        next_ok_def after_call_def split: list.splits)

lemma log_vinted_event_eq:
  "log_vinted_event t s m d w =
     (if \<not> configured w then (Inr False, w)
      else if next_ok w
      then (Inr True, (after_call ''vinted_integration_logs'' w)\<lparr>logs_tbl := logs_tbl w @
              [\<lparr>event_type = t, status = s, event_message = m, data = d\<rparr>]\<rparr>)
      else (Inr False, after_call ''vinted_integration_logs'' w))"
  by (auto simp: log_vinted_event_def try_except_def bind_def ret_def get_supabase_eq execute_eq
        next_ok_def after_call_def Let_def split: list.splits)

lemma create_item_eq:
  "create_item item_data w =
     (if \<not> configured w then (Inr None, w)
      else if next_ok w
      then (Inr (Some item_data), (after_call ''items'' w)\<lparr>items_tbl := items_tbl w @ [item_data]\<rparr>)
      else (Inr None, after_call ''items'' w))"
  by (auto simp: create_item_def try_except_def bind_def ret_def get_supabase_eq execute_eq
        next_ok_def after_call_def split: list.splits)

lemma configured_updates [simp]:
  "configured (w\<lparr>calls := c\<rparr>) = configured w"
  "configured (w\<lparr>supabase_client := True\<rparr>)"
  by (simp_all add: configured_def)

lemma next_ok_calls [simp]: "next_ok (w\<lparr>calls := c\<rparr>) = next_ok w"
  by (simp add: next_ok_def)

lemma after_call_fields [simp]:
  "settings_tbl (after_call t w) = settings_tbl w"
  "items_tbl (after_call t w) = items_tbl w"
  "logs_tbl (after_call t w) = logs_tbl w"
  "market (after_call t w) = market w"
  "clock (after_call t w) = clock w"
  "faults (after_call t w) = tl (faults w)"
  "calls (after_call t w) = calls w @ [StoreCall t]"
  "configured (after_call t w)"
  by (simp_all add: after_call_def configured_def)

lemma next_ok_configured: "next_ok w \<Longrightarrow> configured w"
  by (simp add: next_ok_def)

text \<open>
  C1, as the code has it. While no client exists and one of the two environment values is
  missing, \<^verbatim>\<open>get_supabase\<close> raises the configuration error; each store operation catches
  it and returns its sentinel, leaving the world as it was. Every operation of
  \<^verbatim>\<open>database.py\<close> has the shape of the last line: \<^verbatim>\<open>get_supabase\<close> is called inside the
  operation's own \<^verbatim>\<open>try\<close>, whose handler returns the sentinel.
\<close>

theorem config_missing_is_swallowed:
  assumes "\<not> supabase_client w" and "absent (env_url w) \<or> absent (env_key w)"
  shows "get_supabase w = (Inl ConfigMissing, w) \<and>
         get_setting key w = (Inr None, w) \<and>
         set_setting key val description w = (Inr False, w) \<and>
         get_item_by_vinted_id vinted_item_id w = (Inr None, w) \<and>
         create_item item_data w = (Inr None, w) \<and>
         log_vinted_event ev_type ev_status ev_message ev_data w = (Inr False, w) \<and>
         try_except (bind get_supabase (\<lambda>_. body)) (\<lambda>e. ret sentinel) w = (Inr sentinel, w)"
proof -
  have "\<not> configured w" using assms by (simp add: configured_def)
  then show ?thesis
    by (simp add: get_supabase_eq get_setting_eq set_setting_eq get_item_by_vinted_id_eq
          create_item_eq log_vinted_event_eq try_except_def bind_def ret_def)
qed

theorem config_missing_is_swallowed_witness:
  "\<not> supabase_client unconfigured_world \<and>
   (absent (env_url unconfigured_world) \<or> absent (env_key unconfigured_world)) \<and>
   get_supabase unconfigured_world = (Inl ConfigMissing, unconfigured_world) \<and>
   set_setting ''vinted_last_sync'' (lit ''0'') None unconfigured_world =
     (Inr False, unconfigured_world)"
proof -
  have a: "\<not> supabase_client unconfigured_world"
    by (simp add: unconfigured_world_def shop_world_def)
  have b: "absent (env_url unconfigured_world) \<or> absent (env_key unconfigured_world)"
    by (simp add: unconfigured_world_def shop_world_def absent_def)
  show ?thesis
    using a b config_missing_is_swallowed
                [OF a b, of "''vinted_last_sync''" "lit ''0''" None "lit ''2''" "[]"
                   "''query_sync''" "''Error''" "lit ''m''" JNull "ret True" False]
    by simp
qed

text \<open>
  With the store's address missing, \<^verbatim>\<open>get_setting\<close> does not raise: it returns \<open>None\<close>.
\<close>

theorem get_setting_config_missing_counterexample:
  "absent (env_url unconfigured_world) \<and>
   fst (get_setting ''banwords'' unconfigured_world) = Inr None"
  by (simp add: get_setting_eq configured_def unconfigured_world_def shop_world_def absent_def)

section \<open>The adapter\<close>

text \<open>
  C7. A disabled adapter answers \<^verbatim>\<open>sync_query\<close> with the disabled result and leaves the
  world as it was: no search and no round trip to the store is recorded.
\<close>

theorem sync_query_disabled:
  assumes "\<not> enabled self"
  shows "sync_query py self query_url query_id items_limit w =
           (Inr \<lparr>success = False, imported = 0, skipped = 0, errors = 0, items = None,
                 message = Some (lit ''Integration disabled'')\<rparr>, w) \<and>
         calls (snd (sync_query py self query_url query_id items_limit w)) = calls w"
  using assms by (simp add: sync_query_def ret_def disabled_result_def)

theorem sync_query_disabled_witness:
  "\<not> enabled \<lparr>enabled = False\<rparr> \<and>
   sync_query ascii_runtime \<lparr>enabled = False\<rparr> shoe_search 7 20 shop_world =
     (Inr \<lparr>success = False, imported = 0, skipped = 0, errors = 0, items = None,
           message = Some (lit ''Integration disabled'')\<rparr>, shop_world)"
  using sync_query_disabled [of "\<lparr>enabled = False\<rparr>" ascii_runtime shoe_search 7 20 shop_world]
  by simp

lemma set_setting_total: "\<exists>b. fst (set_setting key val d w) = Inr b"
  by (auto simp: set_setting_eq)

lemma enable_integration_eq:
  "enable_integration (w, self) =
     (Inr True,
      (snd (log_vinted_event ''integration_enabled'' ''Success''
              (lit ''Vinted integration enabled'') JNull
              (snd (set_setting ''vinted_integration_enabled'' (lit ''true'') None w))),
       self\<lparr>enabled := True\<rparr>))"
  by (simp add: enable_integration_def try_except_def bind_def on_world_def modify_local_def
        ret_def set_setting_eq log_vinted_event_eq)

lemma disable_integration_eq:
  "disable_integration (w, self) =
     (Inr True,
      (snd (log_vinted_event ''integration_disabled'' ''Success''
              (lit ''Vinted integration disabled'') JNull
              (snd (set_setting ''vinted_integration_enabled'' (lit ''false'') None w))),
       self\<lparr>enabled := False\<rparr>))"
  by (simp add: disable_integration_def try_except_def bind_def on_world_def modify_local_def
        ret_def set_setting_eq log_vinted_event_eq)

lemma log_keeps_settings:
  "settings_tbl (snd (log_vinted_event t s m d w)) = settings_tbl w"
  by (simp add: log_vinted_event_eq)

text \<open>
  C10. Enabling and disabling always return true and always set the adapter's flag, and
  \<^verbatim>\<open>set_setting\<close> never raises. When the round trip that would persist the flag is not
  answered, \<^verbatim>\<open>set_setting\<close> returns false and the settings table is as before, while
  enabling and disabling still report success.
\<close>

theorem enable_disable_always_succeed:
  "fst (enable_integration (w, self)) = Inr True \<and>
   enabled (snd (snd (enable_integration (w, self)))) \<and>
   fst (disable_integration (w, self)) = Inr True \<and>
   \<not> enabled (snd (snd (disable_integration (w, self)))) \<and>
   (\<exists>b. fst (set_setting key val description w) = Inr b) \<and>
   (\<not> next_ok w \<longrightarrow>
      fst (set_setting key val description w) = Inr False \<and>
      settings_tbl (fst (snd (enable_integration (w, self)))) = settings_tbl w \<and>
      settings_tbl (fst (snd (disable_integration (w, self)))) = settings_tbl w)"
  by (simp add: enable_integration_eq disable_integration_eq log_keeps_settings set_setting_total)
     (simp add: set_setting_eq)

theorem enable_disable_always_succeed_witness:
  "\<not> next_ok unconfigured_world \<and>
   fst (enable_integration (unconfigured_world, \<lparr>enabled = False\<rparr>)) = Inr True \<and>
   enabled (snd (snd (enable_integration (unconfigured_world, \<lparr>enabled = False\<rparr>)))) \<and>
   settings_tbl (fst (snd (enable_integration (unconfigured_world, \<lparr>enabled = False\<rparr>))))
     ''vinted_integration_enabled'' = None"
proof -
  have n: "\<not> next_ok unconfigured_world"
    by (simp add: next_ok_def configured_def unconfigured_world_def shop_world_def absent_def)
  have s: "settings_tbl unconfigured_world ''vinted_integration_enabled'' = None"
    by (simp add: unconfigured_world_def shop_world_def)
  show ?thesis
    using n s enable_disable_always_succeed
                [of unconfigured_world "\<lparr>enabled = False\<rparr>" "''k''" "lit ''v''" None]
    by simp
qed

lemma get_item_total: "\<exists>x w'. get_item_by_vinted_id v w = (Inr x, w')"
  by (simp add: get_item_by_vinted_id_eq)

lemma create_item_total:
  "\<exists>w'. create_item n w = (Inr None, w') \<or> create_item n w = (Inr (Some n), w')"
  by (simp add: create_item_eq)

lemma log_vinted_event_total: "\<exists>b w'. log_vinted_event t s m d w = (Inr b, w')"
  by (auto simp: log_vinted_event_eq)

lemma get_setting_total: "\<exists>x w'. get_setting key w = (Inr x, w')"
  by (simp add: get_setting_eq)

lemma normalize_item_sku:
  "normalize_item py it q = Some n \<Longrightarrow>
     map_of n ''sku'' = Some (JStr (generate_sku py (str_int (item_id it)) (brand_title it)))"
  by (auto simp: normalize_item_def Let_def split: option.splits)

lemma process_item_balanced:
  assumes "balanced n r"
  shows "\<exists>w' r'. process_item py bw qid it (w, r) = (Inr (), (w', r')) \<and> balanced (n + 1) r' \<and>
           success r' = success r \<and> message r' = message r"
proof -
  obtain b reason where ci: "can_import_item py it None (Some bw) = (b, reason)"
    by (cases "can_import_item py it None (Some bw)")
  show ?thesis
  proof (cases b)
    case False
    then show ?thesis using assms ci
      by (auto simp: process_item_def try_except_def modify_local_def balanced_def
            split: option.splits)
  next
    case True
    obtain x w1 where g: "get_item_by_vinted_id (str_int (item_id it)) w = (Inr x, w1)"
      using get_item_total by blast
    show ?thesis
    proof (cases "truthy x")
      case tx: True
      then show ?thesis using assms ci True g
        by (auto simp: process_item_def try_except_def bind_def on_world_def modify_local_def
              balanced_def split: option.splits)
    next
      case fx: False
      show ?thesis
      proof (cases "truthy (normalize_item py it (Some qid))")
        case False
        then show ?thesis using assms ci True g fx
          by (auto simp: process_item_def try_except_def bind_def on_world_def modify_local_def
                balanced_def Let_def split: option.splits)
      next
        case tn: True
        then obtain nrm where nrm: "normalize_item py it (Some qid) = Some nrm"
          by (auto simp: truthy_def split: option.splits)
        have sku: "map_of nrm ''sku'' =
                     Some (JStr (generate_sku py (str_int (item_id it)) (brand_title it)))"
          using nrm by (rule normalize_item_sku)
        obtain w2 where c: "create_item nrm w1 = (Inr None, w2) \<or>
                            create_item nrm w1 = (Inr (Some nrm), w2)"
          using create_item_total by blast
        obtain lb w3 where l:
          "log_vinted_event ''item_imported'' ''Success''
             (lit ''Imported item '' @ title it)
             (JObj [(''vinted_id'', JStr (str_int (item_id it))),
                    (''sku'', JStr (generate_sku py (str_int (item_id it)) (brand_title it)))]) w2
           = (Inr lb, w3)"
          using log_vinted_event_total by blast
        from c show ?thesis
        proof
          assume "create_item nrm w1 = (Inr None, w2)"
          then show ?thesis using assms ci True g fx tn nrm
            by (auto simp: process_item_def try_except_def bind_def on_world_def modify_local_def
                  balanced_def Let_def truthy_def split: option.splits)
        next
          assume "create_item nrm w1 = (Inr (Some nrm), w2)"
          then show ?thesis using assms ci True g fx tn nrm sku l
            by (auto simp: process_item_def try_except_def bind_def on_world_def modify_local_def
                  balanced_def Let_def truthy_def getitem_def ret_def split: option.splits)
        qed
      qed
    qed
  qed
qed

lemma sync_items_balanced:
  "balanced n r \<Longrightarrow>
     \<exists>w' r'. sync_items py bw qid its (w, r) = (Inr (), (w', r')) \<and>
              balanced (n + int (length its)) r' \<and> success r' = success r \<and> message r' = message r"
proof (induction its arbitrary: n r w)
  case Nil
  then show ?case by (simp add: ret_def)
next
  case (Cons it its)
  obtain w1 r1 where p: "process_item py bw qid it (w, r) = (Inr (), (w1, r1))"
      "balanced (n + 1) r1" "success r1 = success r" "message r1 = message r"
    using process_item_balanced [OF Cons.prems] by blast
  obtain w2 r2 where s: "sync_items py bw qid its (w1, r1) = (Inr (), (w2, r2))"
      "balanced (n + 1 + int (length its)) r2" "success r2 = success r1" "message r2 = message r1"
    using Cons.IH [OF p(2)] by blast
  have "balanced (n + (1 + int (length its))) r2" using s(2) by (simp only: add.assoc)
  then show ?case using p s by (simp add: bind_def)
qed

lemma balanced_initial: "balanced 0 initial_result"
  by (simp add: balanced_def initial_result_def)

lemma sync_query_fetch_failed:
  assumes "enabled self" and "market w query_url items_limit = Inl msg"
  shows "sync_query py self query_url query_id items_limit w =
           (Inr (initial_result\<lparr>success := False, message := Some msg\<rparr>),
            snd (log_vinted_event ''query_sync'' ''Error''
                   (lit ''Failed to sync query '' @ str_int query_id @ lit '': '' @ msg)
                   (JObj [(''query_id'', JInt query_id), (''error'', JStr msg)])
                   (w\<lparr>calls := calls w @ [SearchCall query_url items_limit]\<rparr>)))"
proof -
  obtain b w' where
    "log_vinted_event ''query_sync'' ''Error''
       (lit ''Failed to sync query '' @ str_int query_id @ lit '': '' @ msg)
       (JObj [(''query_id'', JInt query_id), (''error'', JStr msg)])
       (w\<lparr>calls := calls w @ [SearchCall query_url items_limit]\<rparr>) = (Inr b, w')"
    using log_vinted_event_total by blast
  then show ?thesis using assms
    by (simp add: sync_query_def with_local_def bind_def try_except_def on_world_def
          items_search_def Let_def modify_local_def get_local_def ret_def str_error_def)
qed

lemma sync_query_fetched:
  assumes "enabled self" and "market w query_url items_limit = Inr its"
    and "get_setting ''banwords'' (w\<lparr>calls := calls w @ [SearchCall query_url items_limit]\<rparr>)
           = (Inr setting, w1)"
    and "sync_items py (parse_banwords py (case setting of None \<Rightarrow> [] | Some v \<Rightarrow> v)) query_id its
           (w1, initial_result) = (Inr (), (w2, r))"
  shows "sync_query py self query_url query_id items_limit w =
           (Inr r,
            snd (log_vinted_event ''query_sync'' ''Success'' (summary_message query_id r)
                   (JObj [(''query_id'', JInt query_id), (''results'', result_json r)])
                   (snd (set_setting ''vinted_last_sync'' (str_int (clock w2)) None w2))))"
proof -
  obtain b w3 where s: "set_setting ''vinted_last_sync'' (str_int (clock w2)) None w2 = (Inr b, w3)"
    using set_setting_total [of "''vinted_last_sync''" "str_int (clock w2)" None w2]
    by (cases "set_setting ''vinted_last_sync'' (str_int (clock w2)) None w2") auto
  obtain b' w4 where l:
    "log_vinted_event ''query_sync'' ''Success'' (summary_message query_id r)
       (JObj [(''query_id'', JInt query_id), (''results'', result_json r)]) w3 = (Inr b', w4)"
    using log_vinted_event_total by blast
  show ?thesis using assms s l
    by (simp add: sync_query_def with_local_def bind_def try_except_def on_world_def
          items_search_def Let_def get_local_def ret_def now_timestamp_def)
qed

text \<open>
  C9. When the adapter is enabled and the search returns \<open>n\<close> items, \<^verbatim>\<open>sync_query\<close>
  returns a result whose three counters add up to \<open>n\<close> and whose item list is as long
  as its count of imports, whatever the store does.
\<close>

theorem sync_query_counts:
  assumes "enabled self" and "market w query_url items_limit = Inr its"
  shows "\<exists>r w'. sync_query py self query_url query_id items_limit w = (Inr r, w') \<and>
           imported r + skipped r + errors r = int (length its) \<and>
           (\<exists>l. items r = Some l \<and> int (length l) = imported r)"
proof -
  obtain setting w1 where
    g: "get_setting ''banwords'' (w\<lparr>calls := calls w @ [SearchCall query_url items_limit]\<rparr>)
          = (Inr setting, w1)"
    using get_setting_total by blast
  obtain w2 r where
    s: "sync_items py (parse_banwords py (case setting of None \<Rightarrow> [] | Some v \<Rightarrow> v)) query_id its
          (w1, initial_result) = (Inr (), (w2, r))"
    and b: "balanced (0 + int (length its)) r"
    using sync_items_balanced [OF balanced_initial] by blast
  have "imported r + skipped r + errors r = int (length its) \<and>
        (\<exists>l. items r = Some l \<and> int (length l) = imported r)"
    using b by (auto simp: balanced_def split: option.splits)
  then show ?thesis
    using sync_query_fetched [OF assms g s] by simp
qed

theorem sync_query_counts_witness:
  "enabled switched_on \<and>
   market shop_world shoe_search 20 = Inr [fake_shoes, nike_shoes] \<and>
   (\<exists>r w'. sync_query ascii_runtime switched_on shoe_search 7 20 shop_world = (Inr r, w') \<and>
      imported r + skipped r + errors r = 2 \<and>
      (\<exists>l. items r = Some l \<and> int (length l) = imported r))"
proof -
  have e: "enabled switched_on" by (simp add: switched_on_def)
  have m: "market shop_world shoe_search 20 = Inr [fake_shoes, nike_shoes]"
    by (simp add: shop_world_def)
  show ?thesis
    using e m sync_query_counts [OF e m, of ascii_runtime 7] by simp
qed

lemma triple_pipe_nonempty: "lit ''|||'' \<noteq> []"
  by (simp add: lit_def)

text \<open>
  C8, as the code has it. For every string value, the ban-words parsed from it are its
  segments at the three-character delimiter \<open>|||\<close>, each trimmed and put in lower case, the
  ones that are empty after trimming left out; the value has such segments, and they are
  the only ones. When the adapter is enabled and the search succeeds, the list
  \<^verbatim>\<open>sync_query\<close> hands to its loop is the one parsed from the value it received for the
  ban-word setting, or from the empty string when it received none.
\<close>

theorem parse_banwords_triple_pipe:
  "(\<exists>segs. splits_at (lit ''|||'') segs banwords_str) \<and>
   (\<forall>segs. splits_at (lit ''|||'') segs banwords_str \<longrightarrow>
      parse_banwords py banwords_str =
        [str_lower py (py_strip py seg). seg \<leftarrow> segs, py_strip py seg \<noteq> []]) \<and>
   (enabled self \<and> market w query_url items_limit = Inr its \<longrightarrow>
      (\<exists>setting w1 w2 r.
         get_setting ''banwords'' (w\<lparr>calls := calls w @ [SearchCall query_url items_limit]\<rparr>)
           = (Inr setting, w1) \<and>
         sync_items py (parse_banwords py (case setting of None \<Rightarrow> [] | Some v \<Rightarrow> v))
           query_id its (w1, initial_result) = (Inr (), (w2, r)) \<and>
         fst (sync_query py self query_url query_id items_limit w) = Inr r))"
proof (intro conjI allI impI)
  show "\<exists>segs. splits_at (lit ''|||'') segs banwords_str"
    using py_split_splits_at [OF triple_pipe_nonempty] by blast
next
  fix segs
  assume "splits_at (lit ''|||'') segs banwords_str"
  then have "py_split banwords_str (lit ''|||'') = segs"
    using splits_at_split_on [OF triple_pipe_nonempty] by (simp add: py_split_def)
  then show "parse_banwords py banwords_str =
               [str_lower py (py_strip py seg). seg \<leftarrow> segs, py_strip py seg \<noteq> []]"
    by (simp add: parse_banwords_def map_filter_comprehension)
next
  assume a: "enabled self \<and> market w query_url items_limit = Inr its"
  obtain setting w1 where
    g: "get_setting ''banwords'' (w\<lparr>calls := calls w @ [SearchCall query_url items_limit]\<rparr>)
          = (Inr setting, w1)"
    using get_setting_total by blast
  obtain w2 r where
    s: "sync_items py (parse_banwords py (case setting of None \<Rightarrow> [] | Some v \<Rightarrow> v)) query_id its
          (w1, initial_result) = (Inr (), (w2, r))"
    using sync_items_balanced [OF balanced_initial] by blast
  have "fst (sync_query py self query_url query_id items_limit w) = Inr r"
    using sync_query_fetched [OF conjunct1 [OF a] conjunct2 [OF a] g s] by simp
  then show "\<exists>setting w1 w2 r.
         get_setting ''banwords'' (w\<lparr>calls := calls w @ [SearchCall query_url items_limit]\<rparr>)
           = (Inr setting, w1) \<and>
         sync_items py (parse_banwords py (case setting of None \<Rightarrow> [] | Some v \<Rightarrow> v))
           query_id its (w1, initial_result) = (Inr (), (w2, r)) \<and>
         fst (sync_query py self query_url query_id items_limit w) = Inr r"
    using g s by blast
qed

theorem parse_banwords_triple_pipe_witness:
  "splits_at (lit ''|||'') [lit '' Fake '', lit '' '', lit ''b|c''] (lit '' Fake ||| |||b|c'') \<and>
   parse_banwords ascii_runtime (lit '' Fake ||| |||b|c'') = [lit ''fake'', lit ''b|c''] \<and>
   enabled switched_on \<and> market shop_world shoe_search 20 = Inr [fake_shoes, nike_shoes] \<and>
   (\<exists>setting w1 w2 r.
      get_setting ''banwords'' (shop_world\<lparr>calls := calls shop_world @ [SearchCall shoe_search 20]\<rparr>)
        = (Inr setting, w1) \<and>
      sync_items ascii_runtime
        (parse_banwords ascii_runtime (case setting of None \<Rightarrow> [] | Some v \<Rightarrow> v))
        7 [fake_shoes, nike_shoes] (w1, initial_result) = (Inr (), (w2, r)) \<and>
      fst (sync_query ascii_runtime switched_on shoe_search 7 20 shop_world) = Inr r)"
proof -
  have sp: "splits_at (lit ''|||'') [lit '' Fake '', lit '' '', lit ''b|c'']
              (lit '' Fake ||| |||b|c'')"
    unfolding splits_at_def py_in_sublist [symmetric] by (simp add: lit_def)
  have e: "enabled switched_on" by (simp add: switched_on_def)
  have m: "market shop_world shoe_search 20 = Inr [fake_shoes, nike_shoes]"
    by (simp add: shop_world_def)
  note t = parse_banwords_triple_pipe
             [of "lit '' Fake ||| |||b|c''" ascii_runtime switched_on shop_world shoe_search 20
                 "[fake_shoes, nike_shoes]" 7]
  have "parse_banwords ascii_runtime (lit '' Fake ||| |||b|c'') =
          [str_lower ascii_runtime (py_strip ascii_runtime seg).
             seg \<leftarrow> [lit '' Fake '', lit '' '', lit ''b|c''], py_strip ascii_runtime seg \<noteq> []]"
    using t sp by blast
  then have p: "parse_banwords ascii_runtime (lit '' Fake ||| |||b|c'') = [lit ''fake'', lit ''b|c'']"
    by (simp add: lit_def py_strip_def ascii_runtime_def ascii_lower_def)
  show ?thesis using sp p e m t by blast
qed

text \<open>A single pipe does not delimit: \<open>a|b\<close> is one ban-word, not two.\<close>

theorem parse_banwords_single_pipe_counterexample:
  "parse_banwords ascii_runtime (lit ''a|b'') = [lit ''a|b''] \<and>
   [lit ''a|b''] \<noteq> [lit ''a'', lit ''b'']"
proof -
  have "parse_banwords ascii_runtime (lit ''a|b'') = [lit ''a|b'']"
    by code_simp
  then show ?thesis by (simp add: lit_def)
qed

section \<open>The loop over a reliable store\<close>

lemma reliable_next_ok [simp]: "reliable w \<Longrightarrow> next_ok w"
  by (simp add: reliable_def next_ok_def)

lemma reliable_configured [simp]: "reliable w \<Longrightarrow> configured w"
  by (simp add: reliable_def)

lemma reliable_after_call [simp]: "reliable w \<Longrightarrow> reliable (after_call t w)"
  by (simp add: reliable_def)

lemma reliable_client [simp]: "reliable w \<Longrightarrow> reliable (w\<lparr>supabase_client := True\<rparr>)"
  by (simp add: reliable_def)

lemma reliable_updates [simp]:
  "reliable (w\<lparr>items_tbl := i\<rparr>) = reliable w"
  "reliable (w\<lparr>logs_tbl := l\<rparr>) = reliable w"
  "reliable (w\<lparr>settings_tbl := s\<rparr>) = reliable w"
  "reliable (w\<lparr>calls := c\<rparr>) = reliable w"
  by (simp_all add: reliable_def configured_def)

lemma truthy_simps:
  "truthy None = False"
  "truthy (Some r) = (r \<noteq> [])"
  by (simp_all add: truthy_def)

lemma normalize_item_nonempty: "normalize_item py it q = Some n \<Longrightarrow> n \<noteq> []"
  by (auto simp: normalize_item_def Let_def split: option.splits)

lemma process_item_reliable:
  assumes "reliable w"
  shows "\<exists>w' r' evs. process_item py bw qid it (w, r) = (Inr (), (w', r')) \<and>
           reliable w' \<and> settings_tbl w' = settings_tbl w \<and> clock w' = clock w \<and>
           logs_tbl w' = logs_tbl w @ evs \<and> (\<forall>e \<in> set evs. event_type e = ''item_imported'')"
proof -
  obtain b reason where ci: "can_import_item py it None (Some bw) = (b, reason)"
    by (cases "can_import_item py it None (Some bw)")
  show ?thesis
  proof (cases b)
    case False
    then show ?thesis using assms ci
      by (simp add: process_item_def try_except_def modify_local_def)
  next
    case True
    show ?thesis
    proof (cases "normalize_item py it (Some qid)")
      case None
      then show ?thesis using assms ci True
        by (simp add: process_item_def try_except_def bind_def on_world_def modify_local_def
              get_item_by_vinted_id_eq truthy_simps)
    next
      case (Some n)
      have ne: "n \<noteq> []" using Some by (rule normalize_item_nonempty)
      have sku: "map_of n ''sku'' =
                   Some (JStr (generate_sku py (str_int (item_id it)) (brand_title it)))"
        using Some by (rule normalize_item_sku)
      show ?thesis using assms ci True Some ne sku
        by (simp add: process_item_def try_except_def bind_def on_world_def modify_local_def
              get_item_by_vinted_id_eq truthy_simps create_item_eq getitem_def ret_def
              log_vinted_event_eq Let_def)
    qed
  qed
qed

lemma sync_items_reliable:
  "reliable w \<Longrightarrow>
     \<exists>w' r' evs. sync_items py bw qid its (w, r) = (Inr (), (w', r')) \<and>
       reliable w' \<and> settings_tbl w' = settings_tbl w \<and> clock w' = clock w \<and>
       logs_tbl w' = logs_tbl w @ evs \<and> (\<forall>e \<in> set evs. event_type e = ''item_imported'')"
proof (induction its arbitrary: w r)
  case Nil
  then show ?case by (simp add: ret_def)
next
  case (Cons it its)
  obtain w1 r1 evs1 where p:
    "process_item py bw qid it (w, r) = (Inr (), (w1, r1))"
    "reliable w1" "settings_tbl w1 = settings_tbl w" "clock w1 = clock w"
    "logs_tbl w1 = logs_tbl w @ evs1" "\<forall>e \<in> set evs1. event_type e = ''item_imported''"
    using process_item_reliable [OF Cons.prems] by blast
  obtain w2 r2 evs2 where s:
    "sync_items py bw qid its (w1, r1) = (Inr (), (w2, r2))"
    "reliable w2" "settings_tbl w2 = settings_tbl w1" "clock w2 = clock w1"
    "logs_tbl w2 = logs_tbl w1 @ evs2" "\<forall>e \<in> set evs2. event_type e = ''item_imported''"
    using Cons.IH [OF p(2)] by blast
  have "sync_items py bw qid (it # its) (w, r) = (Inr (), (w2, r2))"
    using p(1) s(1) by (simp add: bind_def)
  moreover have "logs_tbl w2 = logs_tbl w @ (evs1 @ evs2)" using p(5) s(5) by simp
  moreover have "\<forall>e \<in> set (evs1 @ evs2). event_type e = ''item_imported''"
    using p(6) s(6) by auto
  ultimately show ?case using s(2,3,4) p(3,4) by (metis (no_types, lifting))
qed

text \<open>
  C5, as the code has it. When the adapter is enabled, the search succeeds and the store
  answers every round trip, \<^verbatim>\<open>sync_query\<close> sets the last-sync setting to the current time
  and appends, after the import events of the items, exactly one summary event that carries
  the counts of the result, whether or not any item was imported.
\<close>

theorem sync_query_stamps_and_summarises:
  assumes "enabled self" and "market w query_url items_limit = Inr its" and "reliable w"
  shows "\<exists>r w' evs.
           sync_query py self query_url query_id items_limit w = (Inr r, w') \<and>
           settings_tbl w' = (settings_tbl w)(''vinted_last_sync'' \<mapsto> str_int (clock w)) \<and>
           logs_tbl w' = logs_tbl w @ evs @
             [\<lparr>event_type = ''query_sync'', status = ''Success'',
               event_message = summary_message query_id r,
               data = JObj [(''query_id'', JInt query_id), (''results'', result_json r)]\<rparr>] \<and>
           (\<forall>e \<in> set evs. event_type e = ''item_imported'')"
proof -
  let ?w0 = "w\<lparr>calls := calls w @ [SearchCall query_url items_limit]\<rparr>"
  let ?w1 = "?w0\<lparr>supabase_client := True\<rparr>"
  let ?bw = "parse_banwords py (case None of None \<Rightarrow> [] | Some v \<Rightarrow> v)"
  have r0: "reliable ?w0" using assms(3) by simp
  have g: "get_setting ''banwords'' ?w0 = (Inr None, ?w1)"
    using r0 by (simp add: get_setting_eq)
  have r1: "reliable ?w1" using r0 by simp
  obtain w2 r evs where l:
    "sync_items py ?bw query_id its (?w1, initial_result) = (Inr (), (w2, r))"
    "reliable w2" "settings_tbl w2 = settings_tbl ?w1" "clock w2 = clock ?w1"
    "logs_tbl w2 = logs_tbl ?w1 @ evs" "\<forall>e \<in> set evs. event_type e = ''item_imported''"
    using sync_items_reliable [OF r1] by blast
  let ?w' = "snd (log_vinted_event ''query_sync'' ''Success'' (summary_message query_id r)
                     (JObj [(''query_id'', JInt query_id), (''results'', result_json r)])
                     (snd (set_setting ''vinted_last_sync'' (str_int (clock w2)) None w2)))"
  have q: "sync_query py self query_url query_id items_limit w = (Inr r, ?w')"
    by (rule sync_query_fetched [OF assms(1,2) g l(1)])
  have "settings_tbl ?w' = (settings_tbl w)(''vinted_last_sync'' \<mapsto> str_int (clock w))"
    using l(2,3,4) by (simp add: set_setting_eq log_vinted_event_eq)
  moreover have "logs_tbl ?w' = logs_tbl w @ evs @
             [\<lparr>event_type = ''query_sync'', status = ''Success'',
               event_message = summary_message query_id r,
               data = JObj [(''query_id'', JInt query_id), (''results'', result_json r)]\<rparr>]"
    using l(2,5) by (simp add: set_setting_eq log_vinted_event_eq)
  ultimately show ?thesis using q l(6) by blast
qed

theorem sync_query_stamps_and_summarises_witness:
  "enabled switched_on \<and>
   market shop_world shoe_search 20 = Inr [fake_shoes, nike_shoes] \<and>
   reliable shop_world \<and>
   (\<exists>r w' evs.
      sync_query ascii_runtime switched_on shoe_search 7 20 shop_world = (Inr r, w') \<and>
      settings_tbl w' ''vinted_last_sync'' = Some (lit ''1700000000'') \<and>
      logs_tbl w' = evs @
        [\<lparr>event_type = ''query_sync'', status = ''Success'',
          event_message = summary_message 7 r,
          data = JObj [(''query_id'', JInt 7), (''results'', result_json r)]\<rparr>])"
proof -
  have e: "enabled switched_on" by (simp add: switched_on_def)
  have h: "market shop_world shoe_search 20 = Inr [fake_shoes, nike_shoes]"
      "reliable shop_world"
    by (simp_all add: shop_world_def reliable_def configured_def absent_def lit_def)
  have c: "str_int (clock shop_world) = lit ''1700000000''"
    by (simp add: shop_world_def str_int_def str_digits.simps digit_char_def lit_def)
  have l: "logs_tbl shop_world = []" by (simp add: shop_world_def)
  obtain r w' evs where
    "sync_query ascii_runtime switched_on shoe_search 7 20 shop_world = (Inr r, w')"
    "settings_tbl w' = (settings_tbl shop_world)(''vinted_last_sync'' \<mapsto> str_int (clock shop_world))"
    "logs_tbl w' = logs_tbl shop_world @ evs @
        [\<lparr>event_type = ''query_sync'', status = ''Success'',
          event_message = summary_message 7 r,
          data = JObj [(''query_id'', JInt 7), (''results'', result_json r)]\<rparr>]"
    using sync_query_stamps_and_summarises [OF e h, of ascii_runtime 7]
    by auto
  then show ?thesis using e h c l by auto
qed

text \<open>
  Two runs that stamp nothing and write no summary. In the first the search fails: the
  last-sync setting stays unset and the one event appended is the error event. In the
  second the search succeeds but the store is not configured: \<^verbatim>\<open>set_setting\<close> and
  \<^verbatim>\<open>log_vinted_event\<close> return false, and the setting and the log are as before.
\<close>

theorem sync_query_no_stamp_counterexample:
  "market no_market_world shoe_search 20 = Inl (lit ''timeout'') \<and>
   settings_tbl (snd (sync_query ascii_runtime switched_on shoe_search 7 20 no_market_world))
     ''vinted_last_sync'' = None \<and>
   map status (logs_tbl (snd (sync_query ascii_runtime switched_on shoe_search 7 20
                                 no_market_world))) = [''Error''] \<and>
   market unconfigured_world shoe_search 20 = Inr [fake_shoes, nike_shoes] \<and>
   settings_tbl (snd (sync_query ascii_runtime switched_on shoe_search 7 20 unconfigured_world))
     ''vinted_last_sync'' = None \<and>
   logs_tbl (snd (sync_query ascii_runtime switched_on shoe_search 7 20 unconfigured_world)) = []"
proof -
  have m: "market no_market_world shoe_search 20 = Inl (lit ''timeout'')"
    by (simp add: no_market_world_def)
  have e: "enabled switched_on" by (simp add: switched_on_def)
  have n: "next_ok no_market_world"
    by (simp add: no_market_world_def shop_world_def next_ok_def configured_def absent_def lit_def)
  have s: "settings_tbl no_market_world ''vinted_last_sync'' = None"
      "logs_tbl no_market_world = []"
    by (simp_all add: no_market_world_def shop_world_def)
  have a: "settings_tbl (snd (sync_query ascii_runtime switched_on shoe_search 7 20
                                no_market_world)) ''vinted_last_sync'' = None \<and>
           map status (logs_tbl (snd (sync_query ascii_runtime switched_on shoe_search 7 20
                                         no_market_world))) = [''Error'']"
    using m n s next_ok_configured [OF n]
    by (simp add: sync_query_fetch_failed [OF e m] log_vinted_event_eq)
  have u: "market unconfigured_world shoe_search 20 = Inr [fake_shoes, nike_shoes]"
    by (simp add: unconfigured_world_def shop_world_def)
  have b: "settings_tbl (snd (sync_query ascii_runtime switched_on shoe_search 7 20
                                unconfigured_world)) ''vinted_last_sync'' = None"
    by code_simp
  have c: "logs_tbl (snd (sync_query ascii_runtime switched_on shoe_search 7 20
                            unconfigured_world)) = []"
    by code_simp
  show ?thesis using m a u b c by simp
qed

text \<open>
  C6, as the code has it. When the adapter is enabled and the search raises,
  \<^verbatim>\<open>sync_query\<close> returns an unsuccessful result that carries the error text, with the
  three counters at zero and no items; the inventory and the settings are as before. One
  error event is appended to the log when the store answers that round trip; when it does
  not, the failure is swallowed and the log is as before.
\<close>

theorem sync_query_fetch_error_aborts:
  assumes "enabled self" and "market w query_url items_limit = Inl msg"
  shows "\<exists>w'. sync_query py self query_url query_id items_limit w =
                 (Inr \<lparr>success = False, imported = 0, skipped = 0, errors = 0,
                       items = Some [], message = Some msg\<rparr>, w') \<and>
               items_tbl w' = items_tbl w \<and> settings_tbl w' = settings_tbl w \<and>
               logs_tbl w' =
                 (if next_ok w
                  then logs_tbl w @
                         [\<lparr>event_type = ''query_sync'', status = ''Error'',
                           event_message =
                             lit ''Failed to sync query '' @ str_int query_id @ lit '': '' @ msg,
                           data = JObj [(''query_id'', JInt query_id),
                                        (''error'', JStr msg)]\<rparr>]
                  else logs_tbl w)"
  by (auto simp: sync_query_fetch_failed [OF assms] log_vinted_event_eq initial_result_def
        dest: next_ok_configured)

theorem sync_query_fetch_error_aborts_witness:
  "enabled switched_on \<and>
   market no_market_world shoe_search 20 = Inl (lit ''timeout'') \<and>
   (\<exists>w'. sync_query ascii_runtime switched_on shoe_search 7 20 no_market_world =
            (Inr \<lparr>success = False, imported = 0, skipped = 0, errors = 0,
                  items = Some [], message = Some (lit ''timeout'')\<rparr>, w') \<and>
          logs_tbl w' =
            [\<lparr>event_type = ''query_sync'', status = ''Error'',
              event_message = lit ''Failed to sync query 7: timeout'',
              data = JObj [(''query_id'', JInt 7), (''error'', JStr (lit ''timeout''))]\<rparr>])"
proof -
  have e: "enabled switched_on" by (simp add: switched_on_def)
  have m: "market no_market_world shoe_search 20 = Inl (lit ''timeout'')"
    by (simp add: no_market_world_def)
  have n: "next_ok no_market_world" "logs_tbl no_market_world = []"
    by (simp_all add: no_market_world_def shop_world_def next_ok_def configured_def absent_def
          lit_def)
  have i: "lit ''Failed to sync query '' @ str_int 7 @ lit '': '' @ lit ''timeout'' =
             lit ''Failed to sync query 7: timeout''"
    by (simp add: str_int_def str_digits.simps digit_char_def lit_def)
  show ?thesis
    using sync_query_fetch_error_aborts [OF e m, of ascii_runtime 7] e m n i
    by auto
qed

text \<open>
  With the store out of reach as well, the search error is reported in the result but no
  error event reaches the log.
\<close>

theorem sync_query_error_event_lost_counterexample:
  "market dark_world shoe_search 20 = Inl (lit ''timeout'') \<and>
   fst (sync_query ascii_runtime switched_on shoe_search 7 20 dark_world) =
     Inr \<lparr>success = False, imported = 0, skipped = 0, errors = 0,
          items = Some [], message = Some (lit ''timeout'')\<rparr> \<and>
   logs_tbl (snd (sync_query ascii_runtime switched_on shoe_search 7 20 dark_world)) =
     logs_tbl dark_world"
proof -
  have m: "market dark_world shoe_search 20 = Inl (lit ''timeout'')"
    by (simp add: dark_world_def no_market_world_def)
  have e: "enabled switched_on" by (simp add: switched_on_def)
  have n: "\<not> next_ok dark_world"
    by (simp add: dark_world_def next_ok_def)
  show ?thesis
    using m n by (simp add: sync_query_fetch_failed [OF e m] log_vinted_event_eq initial_result_def)
qed

section \<open>Running the same search twice\<close>

text \<open>
  C2, at the code. The existence lookup \<^verbatim>\<open>get_item_by_vinted_id\<close> calls \<^verbatim>\<open>maybeSingle\<close>,
  which the query builder does not have: the attribute error is caught by the operation's
  own handler and the lookup answers \<^verbatim>\<open>None\<close> in every store, for every external id.
  So, with a store that answers every round trip, an empty inventory and a marketplace that
  returns the same two items both times, the first call of \<^verbatim>\<open>sync_query\<close> imports two
  items and the second call imports the same two again: its result has two imports and
  none skipped, and the inventory holds four rows.
\<close>

theorem sync_query_twice_imports_again:
  "fst (get_item_by_vinted_id vinted_id w) = Inr None \<and>
   reliable shop_world \<and> items_tbl shop_world = [] \<and>
   map_sum (\<lambda>e. ()) (\<lambda>r. (imported r, skipped r))
     (fst (sync_query ascii_runtime switched_on shoe_search 7 20 shop_world)) = Inr (2, 0) \<and>
   market (snd (sync_query ascii_runtime switched_on shoe_search 7 20 shop_world))
     shoe_search 20 = market shop_world shoe_search 20 \<and>
   map_sum (\<lambda>e. ()) (\<lambda>r. (imported r, skipped r))
     (fst (sync_query ascii_runtime switched_on shoe_search 7 20
        (snd (sync_query ascii_runtime switched_on shoe_search 7 20 shop_world)))) = Inr (2, 0) \<and>
   length (items_tbl (snd (sync_query ascii_runtime switched_on shoe_search 7 20
        (snd (sync_query ascii_runtime switched_on shoe_search 7 20 shop_world))))) = 4"
proof -
  have a: "fst (get_item_by_vinted_id vinted_id w) = Inr None"
    by (simp add: get_item_by_vinted_id_eq)
  have b: "reliable shop_world" "items_tbl shop_world = []"
    by (simp_all add: shop_world_def reliable_def configured_def absent_def lit_def)
  have c: "(\<lambda>x. (map_sum (\<lambda>e. ()) (\<lambda>r. (imported r, skipped r)) (fst x),
                 market (snd x) shoe_search 20))
             (sync_query ascii_runtime switched_on shoe_search 7 20 shop_world) =
           (Inr (2, 0), market shop_world shoe_search 20)"
    by code_simp
  have d: "(\<lambda>x. (map_sum (\<lambda>e. ()) (\<lambda>r. (imported r, skipped r)) (fst x),
                 length (items_tbl (snd x))))
             (sync_query ascii_runtime switched_on shoe_search 7 20
                (snd (sync_query ascii_runtime switched_on shoe_search 7 20 shop_world))) =
           (Inr (2, 0), 4)"
    by code_simp
  show ?thesis using a b c d by simp
qed

end
